theory Spec2Isabelle
  imports Main "HOL-Library.Word" "HOL-Library.Sublist"
begin

section \<open>Go values shared by both packages\<close>

text \<open>
  A Go call either returns or ends in a run-time panic (nil dereference, index out of
  range).  \<open>Panic\<close> is kept apart from the \<open>error\<close> values a function returns.
\<close>

datatype 'a outcome = Panic | Return 'a

text \<open>
  Go \<open>error\<close> values.  \<open>Err\<close> is an error produced by a collaborator (a retriever, the
  format converter, the cache); the other constructors are the errors that
  \<open>ffclient.New\<close> builds with \<open>fmt.Errorf\<close>.
\<close>

datatype error =
    Err string
  | InvalidPollingInterval "64 word"
  | ImpossibleToInitRetrievers error
  | ImpossibleToRetrieveFlags error

section \<open>Relay proxy configuration: API keys (cmd/relayproxy/config/config.go)\<close>

text \<open>
  Only the fields read by \<open>APIKeysAdminExists\<close> and \<open>APIKeyExists\<close> are kept.  The two
  private fields are Go maps used as sets (\<open>map[string]interface{}\<close>); \<open>None\<close> is the
  nil map of a configuration on which the lookup has not run yet.
\<close>

record APIKeys =
  Admin :: "string list"
  Evaluation :: "string list"

record relayproxy_Config =
  APIKeys :: "string list"
  AuthorizedKeys :: APIKeys
  apiKeysSet :: "(string \<rightharpoonup> unit) option"
  adminAPIKeySet :: "(string \<rightharpoonup> unit) option"

text \<open>The loop \<open>for _, currentAPIKey := range keys { set[currentAPIKey] = new(interface{}) }\<close>.\<close>

fun addKeys :: "string list \<Rightarrow> (string \<rightharpoonup> unit) \<Rightarrow> (string \<rightharpoonup> unit)" where
  "addKeys [] keySet = keySet"
| "addKeys (currentAPIKey # rest) keySet = addKeys rest (keySet(currentAPIKey \<mapsto> ()))"

text \<open>
  Both methods have a pointer receiver and fill the private set on first use, so the
  model returns the answer together with the updated configuration.
\<close>

definition APIKeysAdminExists :: "relayproxy_Config \<Rightarrow> string \<Rightarrow> bool \<times> relayproxy_Config" where
  "APIKeysAdminExists c apiKey =
     (case adminAPIKeySet c of
        None \<Rightarrow>
          (let adminSet = addKeys (Admin (AuthorizedKeys c)) Map.empty
           in (adminSet apiKey \<noteq> None, c\<lparr>adminAPIKeySet := Some adminSet\<rparr>))
      | Some adminSet \<Rightarrow> (adminSet apiKey \<noteq> None, c))"

definition APIKeyExists :: "relayproxy_Config \<Rightarrow> string \<Rightarrow> bool \<times> relayproxy_Config" where
  "APIKeyExists c apiKey =
     (let (isAdmin, c1) = APIKeysAdminExists c apiKey
      in if isAdmin then (True, c1)
         else (case apiKeysSet c1 of
                 None \<Rightarrow>
                   (let apiKeySet = addKeys (Evaluation (AuthorizedKeys c1))
                                      (addKeys (APIKeys c1) Map.empty)
                    in (apiKeySet apiKey \<noteq> None, c1\<lparr>apiKeysSet := Some apiKeySet\<rparr>))
               | Some apiKeySet \<Rightarrow> (apiKeySet apiKey \<noteq> None, c1)))"

section \<open>ffclient: data model (src/unnamed/part_000)\<close>

text \<open>\<open>time.Duration\<close> is an \<open>int64\<close> count of nanoseconds; comparisons read it signed.\<close>

type_synonym Duration = "64 word"

definition Second :: Duration where
  "Second = 1000000000"

text \<open>
  \<open>dto.DTO\<close> is opaque to this file: the flag definitions are only stored and copied.
  A Go \<open>map[string]dto.DTO\<close> is a finite map; where the source can hold the nil map
  (a slot of \<open>retrieversResults\<close> never written, the \<open>Value\<close> sent with an error) the
  model uses \<open>None\<close>.  Ranging over a nil map runs no iteration.
\<close>

datatype dto = DTO string

type_synonym flags = "string \<rightharpoonup> dto"

text \<open>
  A retriever as one refresh cycle sees it.  \<open>Status\<close> is \<open>None\<close> for a retriever that
  is not a \<open>retriever.InitializableRetriever\<close>; \<open>Retrieve\<close> is what \<open>r.Retrieve(ctx)\<close>
  answers when it is called: an error or the raw bytes.
\<close>

datatype RetrieverStatus = RetrieverNotReady | RetrieverReady | RetrieverError

record Retriever =
  Status :: "RetrieverStatus option"
  Retrieve :: "error + string"

text \<open>The local struct \<open>Results\<close> of \<open>retrieveFlagsAndUpdateCache\<close>.\<close>

record Results =
  Error :: "error option"
  Value :: "flags option"
  Index :: nat

text \<open>
  The fields of \<open>ffclient.Config\<close> that the file reads.  \<open>Exporter\<close> is \<open>None\<close> when no
  exporter is configured and \<open>Some b\<close> for an exporter whose \<open>IsBulk()\<close> answers \<open>b\<close>.
\<close>

record DataExporter =
  FlushInterval :: Duration
  MaxEventInMemory :: "64 word"
  Exporter :: "bool option"

record Config =
  PollingInterval :: Duration
  EnablePollingJitter :: bool
  Offline :: bool
  StartWithRetrieverError :: bool
  FileFormat :: string
  DataExporter :: DataExporter

text \<open>
  Modelled from the spec: the cache manager (\<open>internal/cache\<close>) is not among the
  sources.  Following the spec's Cache Snapshot, its state is the current flag
  definition set plus the last-refresh timestamp (a clock reading, 0 for the zero
  \<open>time.Time\<close>).
\<close>

record cacheManager =
  snapshot :: flags
  latestUpdate :: nat

text \<open>
  Modelled from the spec: \<open>retriever.Manager\<close> is not among the sources; it owns the
  ordered list of retrievers.
\<close>

record Manager =
  retrievers :: "Retriever list"

text \<open>
  Modelled from the spec: \<open>backgroundUpdater\<close> and \<open>exporter.Scheduler\<close> are not among
  the sources.  Of the updater only the two fields that \<open>Close\<close> tests against nil are
  kept (the ticker's duration, jittered or not, is left out); of the scheduler its
  construction arguments and whether its daemon was started.
\<close>

record backgroundUpdater =
  updaterChan :: "unit option"
  ticker :: "unit option"

record Scheduler =
  flushInterval :: Duration
  maxEventInMemory :: "64 word"
  bulk :: bool
  daemonStarted :: bool

record GoFeatureFlag =
  cache :: "cacheManager option"
  config :: Config
  bgUpdater :: backgroundUpdater
  dataExporter :: "Scheduler option"
  retrieverManager :: "Manager option"

text \<open>
  What one call takes from outside the file: the format converter behind
  \<open>cache.ConvertToFlagStruct\<close>, the outcome of \<open>config.GetRetrievers()\<close> and of
  \<open>retrieverManager.Init\<close>, the time at which each retriever's goroutine delivers its
  result (\<open>completion i\<close> for the retriever of index \<open>i\<close>), the clock, and whether the
  cache refuses the update.  None of these is code of the file; they are parameters.
\<close>

record env =
  ConvertToFlagStruct :: "string \<Rightarrow> string \<Rightarrow> flags option \<times> error option"
  GetRetrievers :: "Config \<Rightarrow> error + Retriever list"
  Init :: "Manager \<Rightarrow> error option \<times> Manager"
  completion :: "nat \<Rightarrow> nat"
  clock :: nat
  updateError :: "error option"

section \<open>ffclient: the refresh cycle\<close>

text \<open>
  The body of the goroutine started for each retriever (lines 183-199): the one value it
  sends on \<open>resultsChan\<close>.
\<close>

definition notReady :: "Retriever \<Rightarrow> bool" where
  "notReady r = (case Status r of None \<Rightarrow> False | Some st \<Rightarrow> st \<noteq> RetrieverReady)"

definition runRetriever :: "env \<Rightarrow> string \<Rightarrow> nat \<Rightarrow> Retriever \<Rightarrow> Results" where
  "runRetriever env format index r =
     (if notReady r
      then \<lparr>Error = None, Value = Some Map.empty, Index = index\<rparr>
      else (case Retrieve r of
              Inl err \<Rightarrow> \<lparr>Error = Some err, Value = None, Index = index\<rparr>
            | Inr rawValue \<Rightarrow>
                (let (convertedFlag, err) = ConvertToFlagStruct env rawValue format
                 in \<lparr>Error = err, Value = convertedFlag, Index = index\<rparr>)))"

text \<open>The loop \<open>for index, r := range retrievers\<close>: one result per retriever.\<close>

definition launch :: "env \<Rightarrow> string \<Rightarrow> Retriever list \<Rightarrow> Results list" where
  "launch env format rs =
     map (\<lambda>(index, r). runRetriever env format index r) (enumerate 0 rs)"

text \<open>The indices of the retrievers whose \<open>Retrieve\<close> is invoked during a cycle.\<close>

definition retrieveCalls :: "Retriever list \<Rightarrow> nat list" where
  "retrieveCalls rs = map fst (filter (\<lambda>(index, r). \<not> notReady r) (enumerate 0 rs))"

text \<open>
  The goroutines run concurrently and the channel is unbuffered, so the results reach
  the receiving loop in the order in which the goroutines finish: sorted by completion
  time (equal times keep the launch order).
\<close>

definition arrivals :: "env \<Rightarrow> Results list \<Rightarrow> Results list" where
  "arrivals env results = sort_key (\<lambda>v. completion env (Index v)) results"

text \<open>
  The loop \<open>for v := range resultsChan\<close> (lines 203-208): it returns at the first error
  received; otherwise the value goes to the slot of its index.  Go panics on an index
  outside the slice.
\<close>

fun collectResults :: "Results list \<Rightarrow> flags option list \<Rightarrow> (error + flags option list) outcome" where
  "collectResults [] retrieversResults = Return (Inr retrieversResults)"
| "collectResults (v # vs) retrieversResults =
     (case Error v of
        Some e \<Rightarrow> Return (Inl e)
      | None \<Rightarrow>
          if Index v < length retrieversResults
          then collectResults vs (retrieversResults[Index v := Value v])
          else Panic)"

text \<open>The slots after every received value has been stored.\<close>

fun store :: "Results list \<Rightarrow> flags option list \<Rightarrow> flags option list" where
  "store [] s = s"
| "store (v # vs) s = store vs (s[Index v := Value v])"

text \<open>
  The merge (lines 211-216).  The inner loop copies every entry of \<open>flags\<close> into
  \<open>newFlags\<close>; the keys of one map are distinct, so whatever order Go ranges in, the
  result is \<open>newFlags\<close> overridden by \<open>flags\<close>.
\<close>

fun mergeInto :: "flags \<Rightarrow> flags option list \<Rightarrow> flags" where
  "mergeInto newFlags [] = newFlags"
| "mergeInto newFlags (None # rest) = mergeInto newFlags rest"
| "mergeInto newFlags (Some fl # rest) = mergeInto (newFlags ++ fl) rest"

definition mergeFlags :: "flags option list \<Rightarrow> flags" where
  "mergeFlags retrieversResults = mergeInto Map.empty retrieversResults"

text \<open>Modelled from the spec: \<open>Manager.GetRetrievers\<close> hands out the ordered list.\<close>

definition Manager_GetRetrievers :: "Manager \<Rightarrow> Retriever list" where
  "Manager_GetRetrievers m = retrievers m"

text \<open>Lines 160-216 of \<open>retrieveFlagsAndUpdateCache\<close>: the error returned early, or \<open>newFlags\<close>.\<close>

definition retrieveFlags :: "env \<Rightarrow> Config \<Rightarrow> Manager \<Rightarrow> (error + flags) outcome" where
  "retrieveFlags env cfg m =
     (let rs = Manager_GetRetrievers m;
          resultsChan = arrivals env (launch env (FileFormat cfg) rs)
      in case collectResults resultsChan (replicate (length rs) None) of
           Panic \<Rightarrow> Panic
         | Return (Inl e) \<Rightarrow> Return (Inl e)
         | Return (Inr retrieversResults) \<Rightarrow> Return (Inr (mergeFlags retrieversResults)))"

text \<open>
  Modelled from the spec: \<open>cache.UpdateCache\<close> (\<open>internal/cache\<close>) is not among the
  sources.  The spec's Replace swaps the snapshot and sets the refresh timestamp, all or
  nothing; when it answers an error nothing is replaced.
\<close>

definition UpdateCache :: "env \<Rightarrow> flags \<Rightarrow> cacheManager \<Rightarrow> error option \<times> cacheManager" where
  "UpdateCache env newFlags c =
     (case updateError env of
        Some e \<Rightarrow> (Some e, c)
      | None \<Rightarrow> (None, \<lparr>snapshot = newFlags, latestUpdate = clock env\<rparr>))"

text \<open>
  \<open>retrieveFlagsAndUpdateCache\<close>, called with a cache and a manager that are not nil.
  The cache is a reference in Go; the model returns it next to the error.
\<close>

definition retrieveFlagsAndUpdateCache ::
    "env \<Rightarrow> Config \<Rightarrow> cacheManager \<Rightarrow> Manager \<Rightarrow> (error option \<times> cacheManager) outcome" where
  "retrieveFlagsAndUpdateCache env cfg c m =
     (case retrieveFlags env cfg m of
        Panic \<Rightarrow> Panic
      | Return (Inl e) \<Rightarrow> Return (Some e, c)
      | Return (Inr newFlags) \<Rightarrow> Return (UpdateCache env newFlags c))"

section \<open>ffclient: the instance\<close>

text \<open>
  Modelled from the spec: \<open>Config.IsOffline\<close> and \<open>Config.SetOffline\<close> are not among the
  sources; the offline overlay is the boolean \<open>Offline\<close>, read and written under a lock.
\<close>

definition IsOffline :: "GoFeatureFlag \<Rightarrow> bool" where
  "IsOffline g = Offline (config g)"

definition SetOffline :: "GoFeatureFlag \<Rightarrow> bool \<Rightarrow> GoFeatureFlag" where
  "SetOffline g control = g\<lparr>config := (config g)\<lparr>Offline := control\<rparr>\<rparr>"

text \<open>
  \<open>ForceRefresh\<close> answers the boolean, the instance (its cache possibly replaced) and the
  indices of the retrievers whose \<open>Retrieve\<close> was invoked.  It passes \<open>g.cache\<close> and
  \<open>g.retrieverManager\<close> on without a nil test; \<open>New\<close> sets both or neither, and with both
  nil the call cannot return: \<open>GetRetrievers\<close> is called on the nil manager and
  \<open>UpdateCache\<close> on the nil interface, a nil dereference.  (A nil cache next to a manager
  never comes out of \<open>New\<close>; it is put with the panic.)
\<close>

definition ForceRefresh :: "env \<Rightarrow> GoFeatureFlag \<Rightarrow> (bool \<times> GoFeatureFlag \<times> nat list) outcome" where
  "ForceRefresh env g =
     (if IsOffline g then Return (False, g, [])
      else (case (cache g, retrieverManager g) of
              (Some c, Some m) \<Rightarrow>
                (case retrieveFlagsAndUpdateCache env (config g) c m of
                   Panic \<Rightarrow> Panic
                 | Return (Some err, c') \<Rightarrow>
                     Return (False, g\<lparr>cache := Some c'\<rparr>, retrieveCalls (Manager_GetRetrievers m))
                 | Return (None, c') \<Rightarrow>
                     Return (True, g\<lparr>cache := Some c'\<rparr>, retrieveCalls (Manager_GetRetrievers m)))
            | _ \<Rightarrow> Panic))"

definition GetCacheRefreshDate :: "GoFeatureFlag \<Rightarrow> nat outcome" where
  "GetCacheRefreshDate g =
     (if Offline (config g) then Return 0
      else (case cache g of None \<Rightarrow> Panic | Some c \<Rightarrow> Return (latestUpdate c)))"

text \<open>The \<open>switch\<close> that opens \<open>New\<close> (lines 59-71), cases in the order of the source.\<close>

definition normalizePollingInterval :: "Config \<Rightarrow> error + Config" where
  "normalizePollingInterval config0 =
     (if PollingInterval config0 = 0
      then Inr (config0\<lparr>PollingInterval := 60 * Second\<rparr>)
      else if sint (PollingInterval config0) < 0
      then Inl (InvalidPollingInterval (PollingInterval config0))
      else if sint (PollingInterval config0) < sint Second
      then Inr (config0\<lparr>PollingInterval := Second\<rparr>)
      else Inr config0)"

text \<open>
  Modelled from the spec: \<open>cache.New\<close>, \<open>newBackgroundUpdater\<close>, \<open>retriever.NewManager\<close>
  and \<open>exporter.NewScheduler\<close> are not among the sources.  A new cache holds no flag and
  the zero timestamp; a new updater has its channel and its ticker.
\<close>

definition cache_New :: cacheManager where
  "cache_New = \<lparr>snapshot = Map.empty, latestUpdate = 0\<rparr>"

definition newBackgroundUpdater :: "Duration \<Rightarrow> bool \<Rightarrow> backgroundUpdater" where
  "newBackgroundUpdater pollingInterval useJitter = \<lparr>updaterChan = Some (), ticker = Some ()\<rparr>"

definition NewManager :: "Retriever list \<Rightarrow> Manager" where
  "NewManager rs = \<lparr>retrievers = rs\<rparr>"

definition NewScheduler :: "Duration \<Rightarrow> 64 word \<Rightarrow> bool \<Rightarrow> Scheduler" where
  "NewScheduler fi mx isBulk =
     \<lparr>flushInterval = fi, maxEventInMemory = mx, bulk = isBulk, daemonStarted = False\<rparr>"

text \<open>Lines 107-116 of \<open>New\<close>: the scheduler, its daemon started for a bulk exporter only.\<close>

definition initDataExporter :: "Config \<Rightarrow> Scheduler option" where
  "initDataExporter cfg =
     (case Exporter (DataExporter cfg) of
        None \<Rightarrow> None
      | Some isBulk \<Rightarrow>
          Some ((NewScheduler (FlushInterval (DataExporter cfg))
                   (MaxEventInMemory (DataExporter cfg)) isBulk)\<lparr>daemonStarted := isBulk\<rparr>))"

text \<open>
  \<open>New\<close>.  Go returns \<open>(nil, err)\<close> or \<open>(goFF, nil)\<close>: a sum.  The goroutine of
  \<open>startFlagUpdaterDaemon\<close> started on line 105 runs after \<open>New\<close> has returned and is
  not part of the value.
\<close>

definition New :: "env \<Rightarrow> Config \<Rightarrow> (error + GoFeatureFlag) outcome" where
  "New env config0 =
     (case normalizePollingInterval config0 of
        Inl e \<Rightarrow> Return (Inl e)
      | Inr cfg \<Rightarrow>
          (let goFF = \<lparr>cache = None, config = cfg,
                       bgUpdater = \<lparr>updaterChan = None, ticker = None\<rparr>,
                       dataExporter = None, retrieverManager = None\<rparr>
           in if Offline cfg then Return (Inr goFF)
              else (case GetRetrievers env cfg of
                      Inl err \<Rightarrow> Return (Inl err)
                    | Inr rs \<Rightarrow>
                        (let (initErr, m) = Init env (NewManager rs)
                         in (case (if StartWithRetrieverError cfg then None else initErr) of
                               Some err \<Rightarrow> Return (Inl (ImpossibleToInitRetrievers err))
                             | None \<Rightarrow>
                                 (case retrieveFlagsAndUpdateCache env cfg cache_New m of
                                    Panic \<Rightarrow> Panic
                                  | Return (err, c') \<Rightarrow>
                                      (case (if StartWithRetrieverError cfg then None else err) of
                                         Some e \<Rightarrow> Return (Inl (ImpossibleToRetrieveFlags e))
                                       | None \<Rightarrow>
                                           Return (Inr (goFF
                                             \<lparr>cache := Some c',
                                              bgUpdater := newBackgroundUpdater (PollingInterval cfg)
                                                             (EnablePollingJitter cfg),
                                              dataExporter := initDataExporter cfg,
                                              retrieverManager := Some m\<rparr>)))))))))"

text \<open>
  \<open>Close\<close>, as the sequence of teardown operations it invokes on the components, in
  order.  The receiver may be nil (\<open>None\<close>); \<open>Close\<close> has no result.
\<close>

datatype teardown = CacheClose | BgUpdaterClose | DataExporterClose | RetrieverManagerShutdown

definition Close :: "GoFeatureFlag option \<Rightarrow> teardown list" where
  "Close gp =
     (case gp of
        None \<Rightarrow> []
      | Some g \<Rightarrow>
          (if cache g \<noteq> None then [CacheClose] else []) @
          (if updaterChan (bgUpdater g) \<noteq> None \<and> ticker (bgUpdater g) \<noteq> None
           then [BgUpdaterClose] else []) @
          (if dataExporter g \<noteq> None then [DataExporterClose] else []) @
          (if retrieverManager g \<noteq> None then [RetrieverManagerShutdown] else []))"

section \<open>Example values\<close>

text \<open>Retrievers, a converter and an environment on which the theorems are instantiated.\<close>

definition sourceA :: Retriever where
  "sourceA = \<lparr>Status = None, Retrieve = Inr ''A''\<rparr>"

definition sourceB :: Retriever where
  "sourceB = \<lparr>Status = Some RetrieverReady, Retrieve = Inr ''B''\<rparr>"

definition sourceNotReady :: Retriever where
  "sourceNotReady = \<lparr>Status = Some RetrieverNotReady, Retrieve = Inr ''B''\<rparr>"

definition sourceFailing :: Retriever where
  "sourceFailing = \<lparr>Status = None, Retrieve = Inl (Err ''unreachable'')\<rparr>"

definition convertExample :: "string \<Rightarrow> string \<Rightarrow> flags option \<times> error option" where
  "convertExample rawValue format =
     (if rawValue = ''A'' then (Some [''a'' \<mapsto> DTO ''1''], None)
      else if rawValue = ''B'' then (Some [''a'' \<mapsto> DTO ''2'', ''b'' \<mapsto> DTO ''3''], None)
      else (None, Some (Err ''unknown format'')))"

definition envExample :: "Retriever list \<Rightarrow> env" where
  "envExample rs =
     \<lparr>ConvertToFlagStruct = convertExample, GetRetrievers = (\<lambda>cfg. Inr rs),
      Init = (\<lambda>m. (None, m)), completion = (\<lambda>i. 2 - i), clock = 7, updateError = None\<rparr>"

definition configExample :: Config where
  "configExample =
     \<lparr>PollingInterval = 500000000, EnablePollingJitter = False, Offline = False,
      StartWithRetrieverError = False, FileFormat = ''yaml'',
      DataExporter = \<lparr>FlushInterval = 0, MaxEventInMemory = 0, Exporter = None\<rparr>\<rparr>"

definition cacheExample :: cacheManager where
  "cacheExample = \<lparr>snapshot = [''old'' \<mapsto> DTO ''0''], latestUpdate = 3\<rparr>"


definition configWithExporter :: Config where
  "configWithExporter =
     configExample\<lparr>DataExporter := \<lparr>FlushInterval = 60000000000, MaxEventInMemory = 3,
                                     Exporter = Some True\<rparr>\<rparr>"

definition builtOffline :: GoFeatureFlag where
  "builtOffline =
     \<lparr>cache = None, config = configExample\<lparr>PollingInterval := 1000000000, Offline := True\<rparr>,
      bgUpdater = \<lparr>updaterChan = None, ticker = None\<rparr>,
      dataExporter = None, retrieverManager = None\<rparr>"

definition builtOnline :: GoFeatureFlag where
  "builtOnline =
     \<lparr>cache = Some \<lparr>snapshot = [''a'' \<mapsto> DTO ''1''], latestUpdate = 7\<rparr>,
      config = configWithExporter\<lparr>PollingInterval := 1000000000\<rparr>,
      bgUpdater = \<lparr>updaterChan = Some (), ticker = Some ()\<rparr>,
      dataExporter = Some \<lparr>flushInterval = 60000000000, maxEventInMemory = 3, bulk = True,
                            daemonStarted = True\<rparr>,
      retrieverManager = Some \<lparr>retrievers = [sourceA]\<rparr>\<rparr>"


section \<open>Lemmas: the refresh cycle\<close>

lemma Index_runRetriever [simp]: "Index (runRetriever env fmt i r) = i"
  by (simp add: runRetriever_def Let_def split: sum.splits prod.splits)

lemma length_launch [simp]: "length (launch env fmt rs) = length rs"
  by (simp add: launch_def)

lemma nth_launch: "i < length rs \<Longrightarrow> launch env fmt rs ! i = runRetriever env fmt i (rs ! i)"
  by (simp add: launch_def nth_enumerate_eq)

lemma map_Index_launch: "map Index (launch env fmt rs) = [0..<length rs]"
  by (rule nth_equalityI) (simp_all add: nth_launch)

lemma set_arrivals [simp]: "set (arrivals env xs) = set xs"
  by (simp add: arrivals_def)

lemma distinct_Index_arrivals:
  "distinct (map Index (arrivals env (launch env' fmt rs)))"
proof -
  have d: "distinct (map Index (launch env' fmt rs))"
    by (simp add: map_Index_launch)
  then have "distinct (launch env' fmt rs)" and "inj_on Index (set (launch env' fmt rs))"
    by (simp_all add: distinct_map)
  then show ?thesis
    by (simp add: distinct_map arrivals_def)
qed

lemma length_store [simp]: "length (store vs s) = length s"
  by (induction vs arbitrary: s) auto

lemma store_other: "i \<notin> Index ` set vs \<Longrightarrow> store vs s ! i = s ! i"
  by (induction vs arbitrary: s) auto

lemma store_at:
  "distinct (map Index vs) \<Longrightarrow> v \<in> set vs \<Longrightarrow> Index v < length s \<Longrightarrow>
     store vs s ! Index v = Value v"
proof (induction vs arbitrary: s)
  case Nil
  then show ?case by simp
next
  case (Cons a vs)
  show ?case
  proof (cases "v = a")
    case True
    with Cons.prems have "Index a \<notin> Index ` set vs" by auto
    then have "store vs (s[Index a := Value a]) ! Index a = (s[Index a := Value a]) ! Index a"
      by (rule store_other)
    with True Cons.prems show ?thesis by simp
  next
    case False
    with Cons show ?thesis by simp
  qed
qed

lemma collectResults_ok:
  "\<forall>v\<in>set vs. Error v = None \<and> Index v < length s \<Longrightarrow>
     collectResults vs s = Return (Inr (store vs s))"
  by (induction vs arbitrary: s) auto

lemma collectResults_err:
  "\<forall>v\<in>set vs. Index v < length s \<Longrightarrow> \<exists>v\<in>set vs. Error v \<noteq> None \<Longrightarrow>
     \<exists>v\<in>set vs. \<exists>e. Error v = Some e \<and> collectResults vs s = Return (Inl e)"
proof (induction vs arbitrary: s)
  case Nil
  then show ?case by simp
next
  case (Cons a vs)
  show ?case
  proof (cases "Error a")
    case (Some e)
    then show ?thesis by auto
  next
    case None
    with Cons.prems have "\<exists>v\<in>set vs. Error v \<noteq> None" by auto
    moreover from Cons.prems have "\<forall>v\<in>set vs. Index v < length (s[Index a := Value a])" by simp
    ultimately obtain v e where "v \<in> set vs" "Error v = Some e"
      "collectResults vs (s[Index a := Value a]) = Return (Inl e)"
      using Cons.IH by blast
    with None Cons.prems show ?thesis by auto
  qed
qed

lemma store_arrivals_launch:
  "store (arrivals env (launch env' fmt rs)) (replicate (length rs) None) =
     map Value (launch env' fmt rs)"
proof (rule nth_equalityI)
  show "length (store (arrivals env (launch env' fmt rs)) (replicate (length rs) None)) =
          length (map Value (launch env' fmt rs))"
    by simp
next
  fix i
  assume "i < length (store (arrivals env (launch env' fmt rs)) (replicate (length rs) None))"
  then have i: "i < length rs" by simp
  let ?v = "launch env' fmt rs ! i"
  have v: "?v \<in> set (arrivals env (launch env' fmt rs))" using i by simp
  have iv: "Index ?v = i" using i by (simp add: nth_launch)
  have "store (arrivals env (launch env' fmt rs)) (replicate (length rs) None) ! Index ?v = Value ?v"
    using distinct_Index_arrivals v by (rule store_at) (simp add: iv i)
  then show "store (arrivals env (launch env' fmt rs)) (replicate (length rs) None) ! i =
          map Value (launch env' fmt rs) ! i"
    using i by (simp add: iv)
qed

lemma mergeInto_append: "mergeInto acc (xs @ ys) = mergeInto (mergeInto acc xs) ys"
  by (induction acc xs rule: mergeInto.induct) auto

lemma mergeInto_absent:
  "\<forall>j fl. j < length xs \<and> xs ! j = Some fl \<longrightarrow> fl k = None \<Longrightarrow> mergeInto acc xs k = acc k"
proof (induction acc xs rule: mergeInto.induct)
  case (1 newFlags)
  then show ?case by simp
next
  case (2 newFlags rest)
  have "\<forall>j fl. j < length rest \<and> rest ! j = Some fl \<longrightarrow> fl k = None"
    using "2.prems" by (metis Suc_less_eq length_Cons nth_Cons_Suc)
  with 2 show ?case by simp
next
  case (3 newFlags fl rest)
  have r: "\<forall>j fl. j < length rest \<and> rest ! j = Some fl \<longrightarrow> fl k = None"
    using "3.prems" by (metis Suc_less_eq length_Cons nth_Cons_Suc)
  have "fl k = None" using "3.prems" by (metis length_Cons nth_Cons_0 zero_less_Suc)
  with 3 r show ?case by (simp add: map_add_def)
qed

lemma mergeInto_highest:
  assumes "i < length xs" and "xs ! i = Some fl" and "fl k = Some v"
    and "\<forall>j fl'. i < j \<and> j < length xs \<and> xs ! j = Some fl' \<longrightarrow> fl' k = None"
  shows "mergeInto acc xs k = Some v"
proof -
  have xs: "xs = take i xs @ Some fl # drop (Suc i) xs"
    using assms(1,2) by (metis id_take_nth_drop)
  have later: "\<forall>j fl'. j < length (drop (Suc i) xs) \<and> drop (Suc i) xs ! j = Some fl' \<longrightarrow> fl' k = None"
  proof (intro allI impI)
    fix j fl'
    assume a: "j < length (drop (Suc i) xs) \<and> drop (Suc i) xs ! j = Some fl'"
    then have "Suc i + j < length xs" and "xs ! (Suc i + j) = Some fl'" by auto
    with assms(4) show "fl' k = None" by (metis less_add_Suc1 add_Suc)
  qed
  have "mergeInto acc xs k =
          mergeInto (mergeInto acc (take i xs) ++ fl) (drop (Suc i) xs) k"
    by (subst xs) (simp add: mergeInto_append)
  also have "\<dots> = (mergeInto acc (take i xs) ++ fl) k"
    using later by (rule mergeInto_absent)
  also have "\<dots> = Some v" using assms(3) by (simp add: map_add_def)
  finally show ?thesis .
qed

lemma mergeInto_skip_empty:
  "i < length xs \<Longrightarrow> xs ! i = Some Map.empty \<Longrightarrow>
     mergeInto acc xs = mergeInto acc (take i xs @ drop (Suc i) xs)"
proof -
  assume a: "i < length xs" "xs ! i = Some Map.empty"
  then have xs: "xs = take i xs @ Some Map.empty # drop (Suc i) xs"
    by (metis id_take_nth_drop)
  show ?thesis
    by (subst xs) (simp add: mergeInto_append)
qed

lemma runRetriever_completion [simp]:
  "runRetriever (env\<lparr>completion := d\<rparr>) fmt i r = runRetriever env fmt i r"
  by (simp add: runRetriever_def split: sum.splits)

lemma launch_completion [simp]: "launch (env\<lparr>completion := d\<rparr>) fmt rs = launch env fmt rs"
  by (simp add: launch_def)

lemma Error_launch:
  "(\<forall>v\<in>set (launch env fmt rs). P v) \<longleftrightarrow> (\<forall>i<length rs. P (runRetriever env fmt i (rs ! i)))"
proof -
  have "(\<forall>v\<in>set (launch env fmt rs). P v) \<longleftrightarrow> (\<forall>i<length (launch env fmt rs). P (launch env fmt rs ! i))"
    by (simp add: all_set_conv_all_nth)
  then show ?thesis by (simp add: nth_launch)
qed

lemma Index_launch_bound: "v \<in> set (launch env fmt rs) \<Longrightarrow> Index v < length rs"
proof -
  assume "v \<in> set (launch env fmt rs)"
  then have "Index v \<in> set (map Index (launch env fmt rs))" by simp
  then show ?thesis by (simp add: map_Index_launch)
qed

text \<open>The cycle without an error: every slot holds the value of its retriever.\<close>

lemma retrieveFlags_ok:
  assumes "\<forall>i<length (retrievers m). Error (runRetriever env (FileFormat cfg) i (retrievers m ! i)) = None"
  shows "retrieveFlags env cfg m =
           Return (Inr (mergeFlags (map Value (launch env (FileFormat cfg) (retrievers m)))))"
proof -
  let ?L = "launch env (FileFormat cfg) (retrievers m)"
  have "\<forall>v\<in>set ?L. Error v = None" using assms by (simp add: Error_launch)
  then have "\<forall>v\<in>set (arrivals env ?L).
               Error v = None \<and> Index v < length (replicate (length (retrievers m)) (None :: flags option))"
    by (simp add: Index_launch_bound)
  then have "collectResults (arrivals env ?L) (replicate (length (retrievers m)) None) =
               Return (Inr (store (arrivals env ?L) (replicate (length (retrievers m)) None)))"
    by (rule collectResults_ok)
  then show ?thesis
    by (simp add: retrieveFlags_def Manager_GetRetrievers_def store_arrivals_launch)
qed

lemma retrieveFlags_err:
  assumes "i < length (retrievers m)"
    and "Error (runRetriever env (FileFormat cfg) i (retrievers m ! i)) \<noteq> None"
  shows "\<exists>j<length (retrievers m). \<exists>e.
           Error (runRetriever env (FileFormat cfg) j (retrievers m ! j)) = Some e \<and>
           retrieveFlags env cfg m = Return (Inl e)"
proof -
  let ?L = "launch env (FileFormat cfg) (retrievers m)"
  let ?s = "replicate (length (retrievers m)) (None :: flags option)"
  have "?L ! i \<in> set ?L" using assms(1) by simp
  moreover have "Error (?L ! i) \<noteq> None" using assms by (simp add: nth_launch)
  ultimately have ex: "\<exists>v\<in>set (arrivals env ?L). Error v \<noteq> None" by auto
  have "\<forall>v\<in>set (arrivals env ?L). Index v < length ?s" by (simp add: Index_launch_bound)
  from collectResults_err [OF this ex]
  obtain v e where v: "v \<in> set ?L" "Error v = Some e"
    and c: "collectResults (arrivals env ?L) ?s = Return (Inl e)" by auto
  from v(1) obtain j where j: "j < length (retrievers m)" "v = ?L ! j"
    by (auto simp: in_set_conv_nth)
  then have "Error (runRetriever env (FileFormat cfg) j (retrievers m ! j)) = Some e"
    using v(2) by (simp add: nth_launch)
  moreover have "retrieveFlags env cfg m = Return (Inl e)"
    using c by (simp add: retrieveFlags_def Manager_GetRetrievers_def)
  ultimately show ?thesis using j(1) by blast
qed

lemma retrieveFlags_cases:
  "(\<exists>j<length (retrievers m). \<exists>e.
       Error (runRetriever env (FileFormat cfg) j (retrievers m ! j)) = Some e \<and>
       retrieveFlags env cfg m = Return (Inl e)) \<or>
   ((\<forall>i<length (retrievers m). Error (runRetriever env (FileFormat cfg) i (retrievers m ! i)) = None) \<and>
    retrieveFlags env cfg m =
      Return (Inr (mergeFlags (map Value (launch env (FileFormat cfg) (retrievers m))))))"
  using retrieveFlags_ok [of m env cfg] retrieveFlags_err [of _ m env cfg] by blast

lemma set_retrieveCalls:
  "set (retrieveCalls rs) = {i. i < length rs \<and> \<not> notReady (rs ! i)}"
  by (force simp: retrieveCalls_def in_set_enumerate_eq image_iff)

lemma retrieveFlags_no_Panic: "retrieveFlags env cfg m \<noteq> Panic"
  using retrieveFlags_cases [of m env cfg] by auto

lemma cycle_error_keeps_cache:
  "retrieveFlagsAndUpdateCache env cfg c m = Return (Some e, c') \<Longrightarrow> c' = c"
  by (auto simp: retrieveFlagsAndUpdateCache_def UpdateCache_def
      split: outcome.splits sum.splits option.splits)


lemmas example_defs = sourceA_def sourceB_def sourceNotReady_def sourceFailing_def
  convertExample_def envExample_def configExample_def NewManager_def cacheExample_def

lemmas cycle_defs = retrieveFlags_def Manager_GetRetrievers_def launch_def arrivals_def
  runRetriever_def notReady_def mergeFlags_def


section \<open>Theorems: the refresh cycle\<close>

text \<open>
  C1.  In a refresh cycle that produces a merged flag set, a key contributed by several
  sources carries the value of the contributing source of highest index: if source \<open>i\<close>
  contributes \<open>v\<close> for key \<open>k\<close> and no source of higher index contributes \<open>k\<close>, the
  merged set maps \<open>k\<close> to \<open>v\<close>, and so does the cache snapshot once the cycle has
  installed it.
\<close>

theorem C1_merge_highest_index_wins:
  assumes "retrieveFlags env cfg m = Return (Inr newFlags)"
    and "i < length (retrievers m)"
    and "Value (runRetriever env (FileFormat cfg) i (retrievers m ! i)) = Some fl"
    and "fl k = Some v"
    and "\<forall>j fl'. i < j \<and> j < length (retrievers m) \<and>
           Value (runRetriever env (FileFormat cfg) j (retrievers m ! j)) = Some fl' \<longrightarrow> fl' k = None"
  shows "newFlags k = Some v \<and>
         (\<forall>c c'. retrieveFlagsAndUpdateCache env cfg c m = Return (None, c') \<longrightarrow>
                 snapshot c' k = Some v)"
proof -
  let ?L = "launch env (FileFormat cfg) (retrievers m)"
  have nf: "newFlags = mergeInto Map.empty (map Value ?L)"
    using assms(1) retrieveFlags_cases [of m env cfg] by (auto simp: mergeFlags_def)
  have "mergeInto Map.empty (map Value ?L) k = Some v"
  proof (rule mergeInto_highest [where i = i and fl = fl])
    show "i < length (map Value ?L)" using assms(2) by simp
    show "map Value ?L ! i = Some fl" using assms(2,3) by (simp add: nth_launch)
    show "fl k = Some v" by (rule assms(4))
    show "\<forall>j fl'. i < j \<and> j < length (map Value ?L) \<and> map Value ?L ! j = Some fl' \<longrightarrow> fl' k = None"
    proof (intro allI impI)
      fix j fl'
      assume a: "i < j \<and> j < length (map Value ?L) \<and> map Value ?L ! j = Some fl'"
      then have "j < length (retrievers m)" by simp
      with a have "Value (runRetriever env (FileFormat cfg) j (retrievers m ! j)) = Some fl'"
        by (simp add: nth_launch)
      with a assms(5) \<open>j < length (retrievers m)\<close> show "fl' k = None" by blast
    qed
  qed
  with nf have a: "newFlags k = Some v" by simp
  have "\<And>c c'. retrieveFlagsAndUpdateCache env cfg c m = Return (None, c') \<Longrightarrow> snapshot c' k = Some v"
    using assms(1) a
    by (auto simp: retrieveFlagsAndUpdateCache_def UpdateCache_def split: option.splits)
  with a show ?thesis by blast
qed

theorem C1_merge_highest_index_wins_witness:
  "retrieveFlags (envExample [sourceA, sourceB, sourceNotReady]) configExample
      (NewManager [sourceA, sourceB, sourceNotReady]) =
     Return (Inr (mergeFlags [Some [''a'' \<mapsto> DTO ''1''],
                              Some [''a'' \<mapsto> DTO ''2'', ''b'' \<mapsto> DTO ''3''],
                              Some Map.empty])) \<and>
   mergeFlags [Some [''a'' \<mapsto> DTO ''1''],
               Some [''a'' \<mapsto> DTO ''2'', ''b'' \<mapsto> DTO ''3''],
               Some Map.empty] ''a'' = Some (DTO ''2'')"
proof -
  let ?rs = "[sourceA, sourceB, sourceNotReady]"
  let ?fl = "[''a'' \<mapsto> DTO ''2'', ''b'' \<mapsto> DTO ''3'']"
  have h1: "retrieveFlags (envExample ?rs) configExample (NewManager ?rs) =
     Return (Inr (mergeFlags [Some [''a'' \<mapsto> DTO ''1''], Some ?fl, Some Map.empty]))"
    by (simp add: example_defs cycle_defs)
  have h2: "1 < length (retrievers (NewManager ?rs))"
    by (simp add: NewManager_def)
  have h3: "Value (runRetriever (envExample ?rs) (FileFormat configExample) 1
              (retrievers (NewManager ?rs) ! 1)) = Some ?fl"
    by (simp add: example_defs cycle_defs)
  have h4: "?fl ''a'' = Some (DTO ''2'')" by simp
  have h5: "\<forall>j fl'. 1 < j \<and> j < length (retrievers (NewManager ?rs)) \<and>
       Value (runRetriever (envExample ?rs) (FileFormat configExample) j
                (retrievers (NewManager ?rs) ! j)) = Some fl' \<longrightarrow> fl' ''a'' = None"
  proof (intro allI impI)
    fix j fl'
    assume a: "1 < j \<and> j < length (retrievers (NewManager ?rs)) \<and>
       Value (runRetriever (envExample ?rs) (FileFormat configExample) j
                (retrievers (NewManager ?rs) ! j)) = Some fl'"
    then have "j = 2" by (simp add: NewManager_def)
    with a show "fl' ''a'' = None" by (auto simp: example_defs cycle_defs)
  qed
  from C1_merge_highest_index_wins [OF h1 h2 h3 h4 h5] h1 show ?thesis by simp
qed

text \<open>
  C2.  When the fetch or the conversion of at least one source answers an error, the
  cycle returns an error that one of the sources answered (the first one received), the
  cache manager, snapshot and timestamp, is the one it was before, and \<open>ForceRefresh\<close>
  on an instance holding this cache and these sources answers false and leaves the
  instance as it was.
\<close>

theorem C2_source_error_keeps_cache:
  assumes "i < length (retrievers m)"
    and "Error (runRetriever env (FileFormat cfg) i (retrievers m ! i)) \<noteq> None"
  shows "\<exists>j<length (retrievers m). \<exists>e.
           Error (runRetriever env (FileFormat cfg) j (retrievers m ! j)) = Some e \<and>
           retrieveFlagsAndUpdateCache env cfg c m = Return (Some e, c) \<and>
           (\<forall>g. cache g = Some c \<and> retrieverManager g = Some m \<and> config g = cfg \<longrightarrow>
                (\<exists>calls. ForceRefresh env g = Return (False, g, calls)))"
proof -
  from retrieveFlags_err [OF assms]
  obtain j e where j: "j < length (retrievers m)"
    and e: "Error (runRetriever env (FileFormat cfg) j (retrievers m ! j)) = Some e"
    and r: "retrieveFlags env cfg m = Return (Inl e)" by blast
  have cyc: "retrieveFlagsAndUpdateCache env cfg c m = Return (Some e, c)"
    using r by (simp add: retrieveFlagsAndUpdateCache_def)
  have "\<exists>calls. ForceRefresh env g = Return (False, g, calls)"
    if "cache g = Some c \<and> retrieverManager g = Some m \<and> config g = cfg" for g
  proof -
    have "g\<lparr>cache := Some c\<rparr> = g" using that by simp
    then show ?thesis using that cyc by (simp add: ForceRefresh_def)
  qed
  with j e cyc show ?thesis by blast
qed

theorem C2_source_error_keeps_cache_witness:
  "\<exists>e. retrieveFlagsAndUpdateCache (envExample [sourceA, sourceFailing, sourceB]) configExample
          cacheExample (NewManager [sourceA, sourceFailing, sourceB]) =
        Return (Some e, cacheExample)"
proof -
  let ?rs = "[sourceA, sourceFailing, sourceB]"
  have h1: "1 < length (retrievers (NewManager ?rs))"
    by (simp add: NewManager_def)
  have h2: "Error (runRetriever (envExample ?rs) (FileFormat configExample) 1
              (retrievers (NewManager ?rs) ! 1)) \<noteq> None"
    by (simp add: example_defs cycle_defs)
  from C2_source_error_keeps_cache [OF h1 h2, of cacheExample] show ?thesis by blast
qed

text \<open>
  C6.  A source whose status is not Ready sends the empty flag set and no error, and its
  \<open>Retrieve\<close> is not invoked.  The cycle does not panic; an error it returns is the error
  of another source; and when no other source answers an error the cycle produces the
  merge of the other sources' values, in index order.
\<close>

theorem C6_not_ready_source_contributes_nothing:
  assumes "i < length (retrievers m)"
    and "Status (retrievers m ! i) = Some st" and "st \<noteq> RetrieverReady"
  shows "runRetriever env (FileFormat cfg) i (retrievers m ! i) =
           \<lparr>Error = None, Value = Some Map.empty, Index = i\<rparr> \<and>
         i \<notin> set (retrieveCalls (retrievers m)) \<and>
         retrieveFlags env cfg m \<noteq> Panic \<and>
         (\<forall>e. retrieveFlags env cfg m = Return (Inl e) \<longrightarrow>
              (\<exists>j<length (retrievers m). j \<noteq> i \<and>
                 Error (runRetriever env (FileFormat cfg) j (retrievers m ! j)) = Some e)) \<and>
         ((\<forall>j<length (retrievers m). j \<noteq> i \<longrightarrow>
              Error (runRetriever env (FileFormat cfg) j (retrievers m ! j)) = None) \<longrightarrow>
          retrieveFlags env cfg m =
            Return (Inr (mergeFlags (map Value
              (take i (launch env (FileFormat cfg) (retrievers m)) @
               drop (Suc i) (launch env (FileFormat cfg) (retrievers m)))))))"
proof -
  let ?L = "launch env (FileFormat cfg) (retrievers m)"
  let ?run = "\<lambda>j. runRetriever env (FileFormat cfg) j (retrievers m ! j)"
  have nr: "notReady (retrievers m ! i)" using assms(2,3) by (simp add: notReady_def)
  then have run: "?run i = \<lparr>Error = None, Value = Some Map.empty, Index = i\<rparr>"
    by (simp add: runRetriever_def)
  have calls: "i \<notin> set (retrieveCalls (retrievers m))" using nr by (simp add: set_retrieveCalls)
  have err: "\<exists>j<length (retrievers m). j \<noteq> i \<and> Error (?run j) = Some e"
    if "retrieveFlags env cfg m = Return (Inl e)" for e
  proof -
    from that retrieveFlags_cases [of m env cfg]
    obtain j where "j < length (retrievers m)" "Error (?run j) = Some e" by auto
    moreover from this run have "j \<noteq> i" by auto
    ultimately show ?thesis by blast
  qed
  have ok: "retrieveFlags env cfg m =
      Return (Inr (mergeFlags (map Value (take i ?L @ drop (Suc i) ?L))))"
    if "\<forall>j<length (retrievers m). j \<noteq> i \<longrightarrow> Error (?run j) = None"
  proof -
    have "\<forall>j<length (retrievers m). Error (?run j) = None"
      using that run by (metis Results.select_convs(1))
    then have "retrieveFlags env cfg m = Return (Inr (mergeFlags (map Value ?L)))"
      by (rule retrieveFlags_ok)
    moreover have "mergeFlags (map Value ?L) =
        mergeFlags (take i (map Value ?L) @ drop (Suc i) (map Value ?L))"
      unfolding mergeFlags_def
      by (rule mergeInto_skip_empty) (use assms(1) run in \<open>simp_all add: nth_launch\<close>)
    ultimately show ?thesis by (simp add: take_map drop_map)
  qed
  from run calls retrieveFlags_no_Panic err ok show ?thesis by blast
qed

theorem C6_not_ready_source_contributes_nothing_witness:
  "retrieveFlags (envExample [sourceA, sourceNotReady]) configExample
      (NewManager [sourceA, sourceNotReady]) =
     Return (Inr (mergeFlags [Some [''a'' \<mapsto> DTO ''1'']])) \<and>
   1 \<notin> set (retrieveCalls [sourceA, sourceNotReady])"
proof -
  let ?rs = "[sourceA, sourceNotReady]"
  have h1: "1 < length (retrievers (NewManager ?rs))"
    by (simp add: NewManager_def)
  have h2: "Status (retrievers (NewManager ?rs) ! 1) = Some RetrieverNotReady"
    by (simp add: example_defs)
  have h3: "RetrieverNotReady \<noteq> RetrieverReady" by simp
  have h4: "\<forall>j<length (retrievers (NewManager ?rs)). j \<noteq> 1 \<longrightarrow>
      Error (runRetriever (envExample ?rs) (FileFormat configExample) j
               (retrievers (NewManager ?rs) ! j)) = None"
    by (simp add: example_defs cycle_defs less_Suc_eq)
  from C6_not_ready_source_contributes_nothing [OF h1 h2 h3, of "envExample ?rs" configExample] h4
  show ?thesis by (simp add: example_defs cycle_defs)
qed

text \<open>
  C7.  The merged flag set does not depend on the order in which the goroutines deliver
  their results: a cycle that produces a merged set under one completion order produces
  the same set under any other, namely the merge of the per-source values in index order.
\<close>

theorem C7_merge_independent_of_completion_order:
  "retrieveFlags (env\<lparr>completion := d1\<rparr>) cfg m = Return (Inr newFlags) \<longrightarrow>
     retrieveFlags (env\<lparr>completion := d2\<rparr>) cfg m = Return (Inr newFlags) \<and>
     newFlags = mergeFlags (map Value (launch env (FileFormat cfg) (retrievers m)))"
  using retrieveFlags_cases [of m "env\<lparr>completion := d1\<rparr>" cfg]
        retrieveFlags_cases [of m "env\<lparr>completion := d2\<rparr>" cfg]
  by auto

theorem C7_merge_independent_of_completion_order_witness:
  "retrieveFlags ((envExample [sourceA, sourceB])\<lparr>completion := (\<lambda>i. i)\<rparr>) configExample
      (NewManager [sourceA, sourceB]) =
     Return (Inr (mergeFlags [Some [''a'' \<mapsto> DTO ''1''],
                              Some [''a'' \<mapsto> DTO ''2'', ''b'' \<mapsto> DTO ''3'']])) \<and>
   retrieveFlags ((envExample [sourceA, sourceB])\<lparr>completion := (\<lambda>i. 2 - i)\<rparr>) configExample
      (NewManager [sourceA, sourceB]) =
     Return (Inr (mergeFlags [Some [''a'' \<mapsto> DTO ''1''],
                              Some [''a'' \<mapsto> DTO ''2'', ''b'' \<mapsto> DTO ''3'']])) \<and>
   map Index (arrivals ((envExample [sourceA, sourceB])\<lparr>completion := (\<lambda>i. i)\<rparr>)
     (launch (envExample [sourceA, sourceB]) ''yaml'' [sourceA, sourceB])) = [0, 1] \<and>
   map Index (arrivals ((envExample [sourceA, sourceB])\<lparr>completion := (\<lambda>i. 2 - i)\<rparr>)
     (launch (envExample [sourceA, sourceB]) ''yaml'' [sourceA, sourceB])) = [1, 0]"
proof -
  let ?rs = "[sourceA, sourceB]"
  have h1: "retrieveFlags ((envExample ?rs)\<lparr>completion := (\<lambda>i. i)\<rparr>) configExample
      (NewManager ?rs) =
     Return (Inr (mergeFlags [Some [''a'' \<mapsto> DTO ''1''],
                              Some [''a'' \<mapsto> DTO ''2'', ''b'' \<mapsto> DTO ''3'']]))"
    by (simp add: example_defs cycle_defs)
  have h2: "map Index (arrivals ((envExample ?rs)\<lparr>completion := (\<lambda>i. i)\<rparr>)
     (launch (envExample ?rs) ''yaml'' ?rs)) = [0, 1]"
    by (simp add: example_defs cycle_defs)
  have h3: "map Index (arrivals ((envExample ?rs)\<lparr>completion := (\<lambda>i. 2 - i)\<rparr>)
     (launch (envExample ?rs) ''yaml'' ?rs)) = [1, 0]"
    by (simp add: example_defs cycle_defs)
  from C7_merge_independent_of_completion_order
    [where env = "envExample ?rs" and ?d1.0 = "\<lambda>i. i" and cfg = configExample
       and m = "NewManager ?rs" and ?d2.0 = "\<lambda>i. 2 - i"] h1 h2 h3
  show ?thesis by simp
qed

section \<open>Lemmas: the instance\<close>

lemmas New_defs = New_def normalizePollingInterval_def Second_def cache_New_def
  newBackgroundUpdater_def NewScheduler_def initDataExporter_def
  retrieveFlagsAndUpdateCache_def UpdateCache_def

lemma New_config:
  "New env cfg = Return (Inr g) \<Longrightarrow> normalizePollingInterval cfg = Inr (config g)"
  by (auto simp: New_def Let_def split: sum.splits if_splits option.splits outcome.splits prod.splits)

lemma New_online_builtOnline:
  "New (envExample [sourceA]) configWithExporter = Return (Inr builtOnline)"
  by (simp add: New_defs example_defs cycle_defs configWithExporter_def builtOnline_def)

lemma New_offline_builtOffline:
  "New (envExample [sourceA]) (configExample\<lparr>Offline := True\<rparr>) = Return (Inr builtOffline)"
  by (simp add: New_defs example_defs builtOffline_def)

lemma ForceRefresh_offline: "IsOffline g \<Longrightarrow> ForceRefresh env g = Return (False, g, [])"
  by (simp add: ForceRefresh_def)

lemma ForceRefresh_online:
  assumes "\<not> IsOffline g" and "cache g = Some c" and "retrieverManager g = Some m"
  shows "\<exists>err c'. retrieveFlagsAndUpdateCache env (config g) c m = Return (err, c') \<and>
           ForceRefresh env g =
             Return (err = None, g\<lparr>cache := Some c'\<rparr>, retrieveCalls (retrievers m)) \<and>
           (err \<noteq> None \<longrightarrow> g\<lparr>cache := Some c'\<rparr> = g)"
proof -
  have "retrieveFlagsAndUpdateCache env (config g) c m \<noteq> Panic"
    using retrieveFlags_no_Panic [of env "config g" m]
    by (auto simp: retrieveFlagsAndUpdateCache_def split: outcome.splits sum.splits)
  then obtain err c' where r: "retrieveFlagsAndUpdateCache env (config g) c m = Return (err, c')"
    by (cases "retrieveFlagsAndUpdateCache env (config g) c m") auto
  have f: "ForceRefresh env g =
             Return (err = None, g\<lparr>cache := Some c'\<rparr>, retrieveCalls (retrievers m))"
    using assms r by (cases err) (simp_all add: ForceRefresh_def Manager_GetRetrievers_def)
  have "g\<lparr>cache := Some c'\<rparr> = g" if "err \<noteq> None"
  proof -
    from that obtain e where "err = Some e" by auto
    with r have "c' = c" using cycle_error_keeps_cache by blast
    with assms(2) show ?thesis by simp
  qed
  with r f show ?thesis by blast
qed

lemma New_online_components:
  assumes "New env cfg = Return (Inr g)" and "\<not> Offline cfg"
  shows "cache g \<noteq> None \<and> updaterChan (bgUpdater g) \<noteq> None \<and> ticker (bgUpdater g) \<noteq> None \<and>
         dataExporter g = initDataExporter (config g) \<and> retrieverManager g \<noteq> None"
proof -
  obtain cfg' where n: "normalizePollingInterval cfg = Inr cfg'"
    using assms(1) by (cases "normalizePollingInterval cfg") (simp_all add: New_def)
  then have o: "\<not> Offline cfg'"
    using assms(2) by (auto simp: normalizePollingInterval_def split: if_splits)
  show ?thesis
    using assms(1) n o
    by (auto simp: New_def Let_def newBackgroundUpdater_def
        split: sum.splits option.splits outcome.splits prod.splits if_splits)
qed

section \<open>Theorems: the instance\<close>

text \<open>
  C4.  \<open>New\<close> normalizes the polling interval: a negative interval makes it return an
  error; otherwise the instance it returns holds 60 seconds when the interval was zero,
  1 second when it was positive and below 1 second, and the interval itself when it was
  at least 1 second.
\<close>

theorem C4_polling_interval_normalized:
  "(sint (PollingInterval cfg) < 0 \<longrightarrow>
      New env cfg = Return (Inl (InvalidPollingInterval (PollingInterval cfg)))) \<and>
   (New env cfg = Return (Inr g) \<longrightarrow>
      (PollingInterval cfg = 0 \<longrightarrow> PollingInterval (config g) = 60000000000) \<and>
      (0 < sint (PollingInterval cfg) \<and> sint (PollingInterval cfg) < 1000000000 \<longrightarrow>
         PollingInterval (config g) = 1000000000) \<and>
      (1000000000 \<le> sint (PollingInterval cfg) \<longrightarrow>
         PollingInterval (config g) = PollingInterval cfg))"
proof -
  have neg: "New env cfg = Return (Inl (InvalidPollingInterval (PollingInterval cfg)))"
    if "sint (PollingInterval cfg) < 0"
  proof -
    from that have "PollingInterval cfg \<noteq> 0" by auto
    with that show ?thesis by (simp add: New_def normalizePollingInterval_def)
  qed
  have pos: "(PollingInterval cfg = 0 \<longrightarrow> PollingInterval (config g) = 60000000000) \<and>
      (0 < sint (PollingInterval cfg) \<and> sint (PollingInterval cfg) < 1000000000 \<longrightarrow>
         PollingInterval (config g) = 1000000000) \<and>
      (1000000000 \<le> sint (PollingInterval cfg) \<longrightarrow>
         PollingInterval (config g) = PollingInterval cfg)"
    if "New env cfg = Return (Inr g)"
  proof -
    from that have n: "normalizePollingInterval cfg = Inr (config g)" by (rule New_config)
    have z: "sint (PollingInterval cfg) \<noteq> 0 \<Longrightarrow> PollingInterval cfg \<noteq> 0" by auto
    from n [symmetric] z show ?thesis
      by (auto simp: normalizePollingInterval_def Second_def split: if_splits)
  qed
  from neg pos show ?thesis by blast
qed

theorem C4_polling_interval_normalized_witness:
  "New (envExample [sourceA]) (configExample\<lparr>PollingInterval := - 5\<rparr>) =
     Return (Inl (InvalidPollingInterval (- 5))) \<and>
   (\<exists>g. New (envExample [sourceA]) (configExample\<lparr>PollingInterval := 0\<rparr>) = Return (Inr g) \<and>
        PollingInterval (config g) = 60000000000) \<and>
   (\<exists>g. New (envExample [sourceA]) configExample = Return (Inr g) \<and>
        PollingInterval (config g) = 1000000000) \<and>
   (\<exists>g. New (envExample [sourceA]) (configExample\<lparr>PollingInterval := 3000000000\<rparr>) =
          Return (Inr g) \<and>
        PollingInterval (config g) = 3000000000)"
proof -
  let ?env = "envExample [sourceA]"
  have a: "sint (PollingInterval (configExample\<lparr>PollingInterval := - 5\<rparr>)) < 0"
    by simp
  obtain g0 where g0: "New ?env (configExample\<lparr>PollingInterval := 0\<rparr>) = Return (Inr g0)"
    by (simp add: New_defs example_defs cycle_defs)
  obtain g1 where g1: "New ?env configExample = Return (Inr g1)"
    by (simp add: New_defs example_defs cycle_defs)
  obtain g2 where g2: "New ?env (configExample\<lparr>PollingInterval := 3000000000\<rparr>) = Return (Inr g2)"
    by (simp add: New_defs example_defs cycle_defs)
  have p1: "0 < sint (PollingInterval configExample) \<and> sint (PollingInterval configExample) < 1000000000"
    by (simp add: configExample_def)
  have p2: "1000000000 \<le> sint (PollingInterval (configExample\<lparr>PollingInterval := 3000000000\<rparr>))"
    by simp
  from C4_polling_interval_normalized [of "configExample\<lparr>PollingInterval := - 5\<rparr>" ?env] a
       C4_polling_interval_normalized [of "configExample\<lparr>PollingInterval := 0\<rparr>" ?env g0] g0
       C4_polling_interval_normalized [of configExample ?env g1] g1 p1
       C4_polling_interval_normalized [of "configExample\<lparr>PollingInterval := 3000000000\<rparr>" ?env g2] g2 p2
  show ?thesis by simp
qed

text \<open>
  C3.  When \<open>New\<close> reaches its first refresh cycle (interval accepted, not offline,
  retrievers obtained, initialisation passed or forgiven) and that cycle fails: with
  \<open>StartWithRetrieverError\<close> set it returns an instance whose cache is the empty one just
  created; without it, it returns the error "impossible to retrieve the flags" and no
  instance.
\<close>

theorem C3_first_cycle_failure:
  assumes "normalizePollingInterval config0 = Inr cfg"
    and "\<not> Offline cfg"
    and "GetRetrievers env cfg = Inr rs"
    and "Init env (NewManager rs) = (initErr, m)"
    and "initErr = None \<or> StartWithRetrieverError cfg"
    and "retrieveFlagsAndUpdateCache env cfg cache_New m = Return (Some e, c')"
  shows "(StartWithRetrieverError cfg \<longrightarrow>
            (\<exists>g. New env config0 = Return (Inr g) \<and>
                 cache g = Some \<lparr>snapshot = Map.empty, latestUpdate = 0\<rparr> \<and>
                 retrieverManager g = Some m \<and> config g = cfg)) \<and>
         (\<not> StartWithRetrieverError cfg \<longrightarrow>
            New env config0 = Return (Inl (ImpossibleToRetrieveFlags e)))"
proof -
  have c': "c' = cache_New" using assms(6) by (rule cycle_error_keeps_cache)
  show ?thesis
  proof (cases "StartWithRetrieverError cfg")
    case True
    with assms c' show ?thesis
      by (simp add: New_def Let_def cache_New_def)
  next
    case False
    with assms(5) have "initErr = None" by simp
    with False assms show ?thesis
      by (simp add: New_def Let_def)
  qed
qed

theorem C3_first_cycle_failure_witness:
  "(\<exists>g. New (envExample [sourceFailing]) (configExample\<lparr>StartWithRetrieverError := True\<rparr>) =
          Return (Inr g) \<and>
        cache g = Some \<lparr>snapshot = Map.empty, latestUpdate = 0\<rparr>) \<and>
   New (envExample [sourceFailing]) configExample =
     Return (Inl (ImpossibleToRetrieveFlags (Err ''unreachable'')))"
proof -
  let ?env = "envExample [sourceFailing]"
  let ?c1 = "configExample\<lparr>StartWithRetrieverError := True\<rparr>"
  let ?n1 = "?c1\<lparr>PollingInterval := 1000000000\<rparr>"
  let ?n2 = "configExample\<lparr>PollingInterval := 1000000000\<rparr>"
  let ?m = "NewManager [sourceFailing]"
  have a1: "normalizePollingInterval ?c1 = Inr ?n1"
    by (simp add: normalizePollingInterval_def Second_def configExample_def)
  have a2: "normalizePollingInterval configExample = Inr ?n2"
    by (simp add: normalizePollingInterval_def Second_def configExample_def)
  have b1: "\<not> Offline ?n1" and b2: "\<not> Offline ?n2" by (simp_all add: configExample_def)
  have c1: "GetRetrievers ?env ?n1 = Inr [sourceFailing]"
    and c2: "GetRetrievers ?env ?n2 = Inr [sourceFailing]" by (simp_all add: envExample_def)
  have d: "Init ?env ?m = (None, ?m)" by (simp add: envExample_def)
  have e1: "None = None \<or> StartWithRetrieverError ?n1"
    and e2: "None = None \<or> StartWithRetrieverError ?n2" by simp_all
  have f1: "retrieveFlagsAndUpdateCache ?env ?n1 cache_New ?m =
              Return (Some (Err ''unreachable''), cache_New)"
    by (simp add: retrieveFlagsAndUpdateCache_def example_defs cycle_defs)
  have f2: "retrieveFlagsAndUpdateCache ?env ?n2 cache_New ?m =
              Return (Some (Err ''unreachable''), cache_New)"
    by (simp add: retrieveFlagsAndUpdateCache_def example_defs cycle_defs)
  from C3_first_cycle_failure [OF a1 b1 c1 d e1 f1] C3_first_cycle_failure [OF a2 b2 c2 d e2 f2]
  show ?thesis by (auto simp: configExample_def)
qed

text \<open>
  C5.  \<open>ForceRefresh\<close> in offline mode answers false without invoking any \<open>Retrieve\<close>
  (\<open>ForceRefresh_offline\<close>), and on an instance that has its cache and manager it answers
  false exactly when the cycle fails, leaving the instance as it was
  (\<open>ForceRefresh_online\<close>).  An instance built by \<open>New\<close> in offline mode has neither; once
  \<open>SetOffline(false)\<close> has put it online, \<open>ForceRefresh\<close> answers neither true nor false:
  it panics on the nil manager and cache.
\<close>

theorem C5_ForceRefresh_after_offline_construction:
  "New (envExample [sourceA]) (configExample\<lparr>Offline := True\<rparr>) = Return (Inr builtOffline) \<and>
   \<not> IsOffline (SetOffline builtOffline False) \<and>
   ForceRefresh (envExample [sourceA]) (SetOffline builtOffline False) = Panic"
proof -
  have "ForceRefresh (envExample [sourceA]) (SetOffline builtOffline False) = Panic"
    by (simp add: ForceRefresh_def IsOffline_def SetOffline_def builtOffline_def)
  moreover have "\<not> IsOffline (SetOffline builtOffline False)"
    by (simp add: IsOffline_def SetOffline_def)
  ultimately show ?thesis using New_offline_builtOffline by simp
qed

text \<open>
  C8, as stated, fails: on an instance built by \<open>New\<close> with an exporter, \<open>Close\<close> closes
  the cache first and stops the background updater second.
\<close>

theorem C8_Close_order_counterexample:
  "New (envExample [sourceA]) configWithExporter = Return (Inr builtOnline) \<and>
   Close (Some builtOnline) =
     [CacheClose, BgUpdaterClose, DataExporterClose, RetrieverManagerShutdown] \<and>
   Close (Some builtOnline) \<noteq>
     [BgUpdaterClose, CacheClose, DataExporterClose, RetrieverManagerShutdown]"
  using New_online_builtOnline by (simp add: Close_def builtOnline_def)

text \<open>
  C8, amended.  \<open>Close\<close> invokes the teardown of the components that exist in this fixed
  order: close the flag cache, stop the background updater, close the data exporter,
  shut down the retriever manager.  On an instance that \<open>New\<close> built online all of them
  exist, the exporter when one is configured.
\<close>

theorem C8_Close_order:
  "subseq (Close gp) [CacheClose, BgUpdaterClose, DataExporterClose, RetrieverManagerShutdown] \<and>
   (New env cfg = Return (Inr g) \<and> \<not> Offline cfg \<longrightarrow>
      Close (Some g) =
        [CacheClose, BgUpdaterClose] @
        (case Exporter (DataExporter cfg) of None \<Rightarrow> [] | Some isBulk \<Rightarrow> [DataExporterClose]) @
        [RetrieverManagerShutdown])"
proof -
  have a: "subseq (Close gp) [CacheClose, BgUpdaterClose, DataExporterClose, RetrieverManagerShutdown]"
    by (cases gp) (simp_all add: Close_def)
  have b: "Close (Some g) =
        [CacheClose, BgUpdaterClose] @
        (case Exporter (DataExporter cfg) of None \<Rightarrow> [] | Some isBulk \<Rightarrow> [DataExporterClose]) @
        [RetrieverManagerShutdown]"
    if "New env cfg = Return (Inr g)" and "\<not> Offline cfg"
  proof -
    from that(1) have n: "Inr (config g) = normalizePollingInterval cfg"
      by (simp add: New_config)
    then have o: "Offline (config g) = Offline cfg"
      and d: "DataExporter (config g) = DataExporter cfg"
      by (auto simp: normalizePollingInterval_def split: if_splits)
    from New_online_components [OF that]
    have "Close (Some g) =
        [CacheClose, BgUpdaterClose] @
        (if initDataExporter (config g) \<noteq> None then [DataExporterClose] else []) @
        [RetrieverManagerShutdown]"
      by (simp add: Close_def)
    then show ?thesis
      by (simp add: initDataExporter_def d split: option.splits)
  qed
  from a b show ?thesis by blast
qed

theorem C8_Close_order_witness:
  "Close (Some builtOnline) =
     [CacheClose, BgUpdaterClose, DataExporterClose, RetrieverManagerShutdown]"
proof -
  have "\<not> Offline configWithExporter"
    by (simp add: configWithExporter_def configExample_def)
  with C8_Close_order [of "Some builtOnline" "envExample [sourceA]" configWithExporter builtOnline]
    New_online_builtOnline
  show ?thesis by (simp add: configWithExporter_def)
qed

section \<open>Lemmas: API keys\<close>

lemma addKeys_dom: "addKeys keys keySet k = Some () \<longleftrightarrow> k \<in> set keys \<or> keySet k = Some ()"
  by (induction keys arbitrary: keySet) auto

lemma APIKeysAdminExists_again:
  "fst (APIKeysAdminExists (snd (APIKeysAdminExists c k')) k) =
     (case adminAPIKeySet c of
        None \<Rightarrow> k \<in> set (Admin (AuthorizedKeys c))
      | Some adminSet \<Rightarrow> adminSet k \<noteq> None)"
  by (simp add: APIKeysAdminExists_def Let_def addKeys_dom split: option.splits)

text \<open>
  C10.  Whenever \<open>APIKeysAdminExists\<close> answers true for a key, \<open>APIKeyExists\<close> answers
  true for the same key, on the same configuration and also on the configuration as the
  admin lookup left it (its set filled in).  In particular, on a configuration whose
  admin set has not been built yet, every key listed in \<open>AuthorizedKeys.Admin\<close> is
  accepted by \<open>APIKeyExists\<close>.
\<close>

theorem C10_admin_key_is_api_key:
  "(fst (APIKeysAdminExists c apiKey) \<longrightarrow>
      fst (APIKeyExists c apiKey) \<and>
      fst (APIKeyExists (snd (APIKeysAdminExists c apiKey)) apiKey)) \<and>
   (adminAPIKeySet c = None \<and> apiKey \<in> set (Admin (AuthorizedKeys c)) \<longrightarrow>
      fst (APIKeyExists c apiKey))"
  by (auto simp: APIKeyExists_def APIKeysAdminExists_def Let_def addKeys_dom
      split: option.splits)

theorem C10_admin_key_is_api_key_witness:
  "fst (APIKeysAdminExists
          \<lparr>APIKeys = [], AuthorizedKeys = \<lparr>Admin = [''49b6''], Evaluation = [''xxx'']\<rparr>,
           apiKeysSet = None, adminAPIKeySet = None\<rparr> ''49b6'') \<and>
   fst (APIKeyExists
          \<lparr>APIKeys = [], AuthorizedKeys = \<lparr>Admin = [''49b6''], Evaluation = [''xxx'']\<rparr>,
           apiKeysSet = None, adminAPIKeySet = None\<rparr> ''49b6'')"
  using C10_admin_key_is_api_key
    [of "\<lparr>APIKeys = [], AuthorizedKeys = \<lparr>Admin = [''49b6''], Evaluation = [''xxx'']\<rparr>,
          apiKeysSet = None, adminAPIKeySet = None\<rparr>" "''49b6''"]
  by (simp add: APIKeysAdminExists_def)

end
